theory Spec2Isabelle
  imports Main
begin

section \<open>Python values and exceptions\<close>

text \<open>
  The collections editor shows arbitrary Python values. The model keeps the
  values whose behaviour the editor's own code depends on: \<open>None\<close>, integers,
  text strings (\<open>str\<close>), byte strings (\<open>bytes\<close>), plain objects that
  support no ordering (such as \<open>object()\<close>), and the metadata record that
  the remote mode stores for each variable (a \<open>dict\<close> with the entries
  \<open>'size'\<close> and \<open>'type'\<close>). A character of a \<open>str\<close> is a code point
  in the range 0..255 (the Latin-1 block of Unicode); a character of a
  \<open>bytes\<close> value is a byte.
\<close>

datatype pyval =
    PNone
  | PInt int
  | PStr string
  | PBytes string
  | PObj nat
  | PMeta (meta_size: pyval) (meta_type: string)

text \<open>
  Exceptions are values: the class and the text that \<open>str(e)\<close> returns.
  \<open>KeyboardInterrupt\<close> stands for the classes that derive from
  \<open>BaseException\<close> without deriving from \<open>Exception\<close>. Errors raised by
  the interpreter itself carry an empty text here: no modelled code reads it.
\<close>

datatype exc_class =
    TypeError | ValueError | AttributeError | NotImplementedError
  | KeyError | IndexError | RuntimeError | KeyboardInterrupt

datatype exn = Exn (exc_cls: exc_class) (exc_str: string)

definition raise :: "exc_class \<Rightarrow> exn + 'a" where
  "raise c = Inl (Exn c [])"

definition bindE :: "exn + 'a \<Rightarrow> ('a \<Rightarrow> exn + 'b) \<Rightarrow> exn + 'b" where
  "bindE m f = (case m of Inl e \<Rightarrow> Inl e | Inr v \<Rightarrow> f v)"

fun mapE :: "('a \<Rightarrow> exn + 'b) \<Rightarrow> 'a list \<Rightarrow> exn + 'b list" where
  "mapE f [] = Inr []"
| "mapE f (x # xs) =
     (case f x of
        Inl e \<Rightarrow> Inl e
      | Inr y \<Rightarrow> (case mapE f xs of Inl e \<Rightarrow> Inl e | Inr ys \<Rightarrow> Inr (y # ys)))"

text \<open>\<open>isinstance(x, str)\<close> and \<open>isinstance(x, bytes)\<close>.\<close>

fun is_str :: "pyval \<Rightarrow> bool" where
  "is_str (PStr s) = True"
| "is_str v = False"

fun is_bytes :: "pyval \<Rightarrow> bool" where
  "is_bytes (PBytes s) = True"
| "is_bytes v = False"

subsection \<open>Ordering\<close>

text \<open>
  \<open>a < b\<close> on strings and byte strings compares code points
  lexicographically; a proper prefix is smaller.
\<close>

fun str_lt :: "string \<Rightarrow> string \<Rightarrow> bool" where
  "str_lt [] [] = False"
| "str_lt [] (d # t) = True"
| "str_lt (c # s) [] = False"
| "str_lt (c # s) (d # t) =
     (if c = d then str_lt s t else (of_char c :: nat) < of_char d)"

text \<open>
  \<open>a < b\<close> on values: defined between two integers, two strings and two byte
  strings; every other pair raises \<open>TypeError\<close>
  (\<open>'<' not supported between instances of ...\<close>).
\<close>

fun py_lt :: "pyval \<Rightarrow> pyval \<Rightarrow> exn + bool" where
  "py_lt (PInt a) (PInt b) = Inr (a < b)"
| "py_lt (PStr a) (PStr b) = Inr (str_lt a b)"
| "py_lt (PBytes a) (PBytes b) = Inr (str_lt a b)"
| "py_lt a b = raise TypeError"

section \<open>Natural sorting\<close>

text \<open>
  \<open>re.split('([0-9]+)', s)\<close> cuts \<open>s\<close> at every maximal run of the ASCII
  digits and keeps the runs: the result alternates text, digits, text, ...,
  and starts and ends with a (possibly empty) text.
\<close>

definition is_ascii_digit :: "char \<Rightarrow> bool" where
  "is_ascii_digit c = (48 \<le> (of_char c :: nat) \<and> (of_char c :: nat) \<le> 57)"

function re_split :: "string \<Rightarrow> string list" where
  "re_split s =
     (let t = takeWhile (\<lambda>c. \<not> is_ascii_digit c) s;
          r = dropWhile (\<lambda>c. \<not> is_ascii_digit c) s
      in if r = [] then [t]
         else t # takeWhile is_ascii_digit r # re_split (dropWhile is_ascii_digit r))"
  by pat_completeness auto
termination
proof (relation "measure length")
  show "wf (measure length)" by simp
next
  fix s :: string and t r
  assume r: "r = dropWhile (\<lambda>c. \<not> is_ascii_digit c) s" and ne: "r \<noteq> []"
  from ne obtain c cs where rc: "r = c # cs" by (cases r) auto
  have "is_ascii_digit c"
    using hd_dropWhile [of "\<lambda>c. \<not> is_ascii_digit c" s] r rc
    by (metis list.sel(1) list.distinct(1))
  then have "length (dropWhile is_ascii_digit r) < length r"
    using rc length_dropWhile_le [of is_ascii_digit cs] by simp
  moreover have "length r \<le> length s"
    using r length_dropWhile_le by metis
  ultimately show "(dropWhile is_ascii_digit r, s) \<in> measure length" by simp
qed

declare re_split.simps [simp del]

text \<open>
  \<open>str.isdigit\<close>: true for a non-empty string whose characters all have the
  Unicode property Numeric_Type=Digit or Decimal. Among the code points
  0..255 these are the ASCII digits and the superscripts U+00B2, U+00B3 and
  U+00B9. \<open>int(t)\<close> accepts only the decimal digits and raises
  \<open>ValueError\<close> on a superscript. (The limit that recent interpreters put
  on the number of digits \<open>int\<close> converts is not modelled.)
\<close>

definition is_digit_char :: "char \<Rightarrow> bool" where
  "is_digit_char c =
     (is_ascii_digit c \<or> (of_char c :: nat) \<in> {178, 179, 185})"

definition isdigit :: "string \<Rightarrow> bool" where
  "isdigit t = (t \<noteq> [] \<and> list_all is_digit_char t)"

definition digit_val :: "char \<Rightarrow> nat" where
  "digit_val c = of_char c - 48"

definition py_int :: "string \<Rightarrow> exn + nat" where
  "py_int t =
     (if t \<noteq> [] \<and> list_all is_ascii_digit t
      then Inr (foldl (\<lambda>a c. 10 * a + digit_val c) 0 t)
      else raise ValueError)"

text \<open>
  \<open>str.lower\<close> on the code points 0..255: \<open>A\<close>..\<open>Z\<close> and the capital
  letters U+00C0..U+00DE (U+00D7, the multiplication sign, is not a letter)
  move up by 32.
\<close>

definition lower_char :: "char \<Rightarrow> char" where
  "lower_char c =
     (let n = (of_char c :: nat)
      in if (65 \<le> n \<and> n \<le> 90) \<or> (192 \<le> n \<and> n \<le> 222 \<and> n \<noteq> 215)
         then char_of (n + 32) else c)"

definition lower :: "string \<Rightarrow> string" where
  "lower t = map lower_char t"

text \<open>
  The elements of the list \<open>natsort\<close> builds are integers and strings;
  \<open>natsort\<close> returns either such a list or, for an argument that is neither
  \<open>str\<close> nor \<open>bytes\<close>, the argument itself.
\<close>

datatype nat_tok = TInt nat | TStr string

datatype sort_key = KList "nat_tok list" | KVal pyval

definition natsort_tok :: "string \<Rightarrow> exn + nat_tok" where
  "natsort_tok t =
     (if isdigit t then bindE (py_int t) (\<lambda>n. Inr (TInt n))
      else Inr (TStr (lower t)))"

text \<open>
  \<open>natsort(s)\<close>. For a \<open>bytes\<close> argument the call of \<open>re.split\<close> with a
  \<open>str\<close> pattern raises \<open>TypeError\<close> (cannot use a string pattern on a
  bytes-like object).
\<close>

fun natsort :: "pyval \<Rightarrow> exn + sort_key" where
  "natsort (PStr s) =
     bindE (mapE natsort_tok (re_split s)) (\<lambda>x. Inr (KList x))"
| "natsort (PBytes s) = raise TypeError"
| "natsort v = Inr (KVal v)"






section \<open>ProxyObject\<close>

text \<open>
  An object is seen through its attributes. An attribute has a read
  behaviour (\<open>getattr\<close> returns a value or raises) and a write behaviour
  (\<open>setattr\<close> raises, or stores the value). \<open>getattr\<close> and \<open>setattr\<close>
  raise \<open>TypeError\<close> for an attribute name that is not a string,
  \<open>getattr\<close> raises \<open>AttributeError\<close> for a name the object does not
  have, and \<open>setattr\<close> of a new name adds the attribute.
\<close>

datatype slot = Slot (slot_read: "exn + pyval") (slot_write: "exn option")

type_synonym pyobj = "(string \<times> slot) list"

fun getattr :: "pyobj \<Rightarrow> pyval \<Rightarrow> exn + pyval" where
  "getattr obj (PStr name) =
     (case map_of obj name of
        None \<Rightarrow> raise AttributeError
      | Some sl \<Rightarrow> slot_read sl)"
| "getattr obj key = raise TypeError"

fun store_attr :: "pyobj \<Rightarrow> string \<Rightarrow> pyval \<Rightarrow> pyobj" where
  "store_attr [] name v = [(name, Slot (Inr v) None)]"
| "store_attr ((n, sl) # obj) name v =
     (if n = name then (n, Slot (Inr v) (slot_write sl)) # obj
      else (n, sl) # store_attr obj name v)"

fun setattr :: "pyobj \<Rightarrow> pyval \<Rightarrow> pyval \<Rightarrow> exn + pyobj" where
  "setattr obj (PStr name) v =
     (case map_of obj name of
        None \<Rightarrow> Inr (store_attr obj name v)
      | Some sl \<Rightarrow>
          (case slot_write sl of
             Some e \<Rightarrow> Inl e
           | None \<Rightarrow> Inr (store_attr obj name v)))"
| "setattr obj key v = raise TypeError"

text \<open>\<open>isinstance(e, Exception)\<close>.\<close>

fun is_Exception :: "exc_class \<Rightarrow> bool" where
  "is_Exception KeyboardInterrupt = False"
| "is_Exception c = True"

text \<open>\<open>s.startswith(sub)\<close> and \<open>sub in s\<close> on strings.\<close>

fun startswith :: "string \<Rightarrow> string \<Rightarrow> bool" where
  "startswith s [] = True"
| "startswith [] (c # sub) = False"
| "startswith (d # s) (c # sub) = (d = c \<and> startswith s sub)"

fun contains :: "string \<Rightarrow> string \<Rightarrow> bool" where
  "contains [] sub = (sub = [])"
| "contains (d # s) sub = (startswith (d # s) sub \<or> contains s sub)"

text \<open>\<open>ProxyObject.__getitem__\<close> and \<open>ProxyObject.__setitem__\<close>.\<close>

definition getitem_proxy :: "pyobj \<Rightarrow> pyval \<Rightarrow> exn + pyval" where
  "getitem_proxy obj key =
     (case getattr obj key of
        Inr attribute_toreturn \<Rightarrow> Inr attribute_toreturn
      | Inl e \<Rightarrow>
          (if exc_cls e \<in> {NotImplementedError, AttributeError, TypeError, ValueError}
           then Inr PNone else Inl e))"

definition setitem_proxy :: "pyobj \<Rightarrow> pyval \<Rightarrow> pyval \<Rightarrow> exn + pyobj" where
  "setitem_proxy obj key v =
     (case setattr obj key v of
        Inr obj' \<Rightarrow> Inr obj'
      | Inl e \<Rightarrow>
          (if exc_cls e \<in> {TypeError, AttributeError, NotImplementedError}
           then Inr obj
           else if is_Exception (exc_cls e)
           then (if \<not> contains (exc_str e) ''cannot set values for''
                 then Inl e else Inr obj)
           else Inl e))"

section \<open>Sorting\<close>

text \<open>
  \<open>sorted(xs, key=k, reverse=r)\<close> first computes the key of every element,
  in order, and an exception of the key function propagates. It then sorts
  stably, using only \<open><\<close> on the keys; with \<open>reverse=True\<close> the list is
  reversed before and after, so elements with equal keys keep their order.
  An exception of a comparison propagates. The model sorts by insertion.
  On the values of this model \<open><\<close> is defined exactly inside the classes of
  integers, strings, byte strings and \<open>natsort\<close> lists, so a sort of two or
  more elements raises exactly when they are not all of one such class,
  whatever the algorithm; when it does not raise, the stable order is unique.
\<close>

fun insertE :: "('k \<Rightarrow> 'k \<Rightarrow> exn + bool) \<Rightarrow> 'k \<times> 'a \<Rightarrow> ('k \<times> 'a) list
    \<Rightarrow> exn + ('k \<times> 'a) list" where
  "insertE lt x [] = Inr [x]"
| "insertE lt x (y # ys) =
     bindE (lt (fst y) (fst x)) (\<lambda>b.
       if b then bindE (insertE lt x ys) (\<lambda>zs. Inr (y # zs))
       else Inr (x # y # ys))"

fun isortE :: "('k \<Rightarrow> 'k \<Rightarrow> exn + bool) \<Rightarrow> ('k \<times> 'a) list \<Rightarrow> exn + ('k \<times> 'a) list" where
  "isortE lt [] = Inr []"
| "isortE lt (x # xs) = bindE (isortE lt xs) (insertE lt x)"

definition py_sorted :: "('a \<Rightarrow> exn + 'k) \<Rightarrow> ('k \<Rightarrow> 'k \<Rightarrow> exn + bool) \<Rightarrow> bool
    \<Rightarrow> 'a list \<Rightarrow> exn + 'a list" where
  "py_sorted key lt reverse xs =
     bindE (mapE (\<lambda>x. bindE (key x) (\<lambda>k. Inr (k, x))) xs) (\<lambda>d.
     bindE (isortE lt (if reverse then rev d else d)) (\<lambda>s.
     Inr (map snd (if reverse then rev s else s))))"





section \<open>The collections\<close>

text \<open>
  The data of an editor: a tuple, a list, a set or a frozenset (given in
  iteration order), a dict (given in insertion order, with distinct keys),
  or any other object, which the model wraps in a \<open>ProxyObject\<close>.
\<close>

datatype pydata =
    DTuple "pyval list"
  | DList "pyval list"
  | DSet "pyval list"
  | DFrozenset "pyval list"
  | DDict "(pyval \<times> pyval) list"
  | DObject pyobj
  | DProxy pyobj

fun is_dict :: "pydata \<Rightarrow> bool" where
  "is_dict (DDict kvs) = True"
| "is_dict d = False"

fun is_list :: "pydata \<Rightarrow> bool" where
  "is_list (DList xs) = True"
| "is_list d = False"

fun is_tuple_set_frozenset :: "pydata \<Rightarrow> bool" where
  "is_tuple_set_frozenset (DTuple xs) = True"
| "is_tuple_set_frozenset (DSet xs) = True"
| "is_tuple_set_frozenset (DFrozenset xs) = True"
| "is_tuple_set_frozenset d = False"

fun is_list_set_frozenset :: "pydata \<Rightarrow> bool" where
  "is_list_set_frozenset (DList xs) = True"
| "is_list_set_frozenset (DSet xs) = True"
| "is_list_set_frozenset (DFrozenset xs) = True"
| "is_list_set_frozenset d = False"

text \<open>\<open>isinstance(data, (tuple, list, dict, set, frozenset))\<close>.\<close>

fun is_collection :: "pydata \<Rightarrow> bool" where
  "is_collection (DObject obj) = False"
| "is_collection (DProxy obj) = False"
| "is_collection d = True"

text \<open>
  Subscripting. A list index may be negative and then counts from the end.
  A dict (here: a metadata record) is not hashable and cannot be a key.
\<close>

definition list_index :: "'a list \<Rightarrow> int \<Rightarrow> nat option" where
  "list_index xs i =
     (let n = int (length xs); j = (if i < 0 then i + n else i)
      in if 0 \<le> j \<and> j < n then Some (nat j) else None)"

fun seq_getitem :: "pyval list \<Rightarrow> pyval \<Rightarrow> exn + pyval" where
  "seq_getitem xs (PInt i) =
     (case list_index xs i of None \<Rightarrow> raise IndexError | Some j \<Rightarrow> Inr (xs ! j))"
| "seq_getitem xs key = raise TypeError"

fun hashable :: "pyval \<Rightarrow> bool" where
  "hashable (PMeta s t) = False"
| "hashable v = True"

definition dict_getitem :: "(pyval \<times> pyval) list \<Rightarrow> pyval \<Rightarrow> exn + pyval" where
  "dict_getitem kvs key =
     (if \<not> hashable key then raise TypeError
      else case map_of kvs key of None \<Rightarrow> raise KeyError | Some v \<Rightarrow> Inr v)"

fun data_getitem :: "pydata \<Rightarrow> pyval \<Rightarrow> exn + pyval" where
  "data_getitem (DTuple xs) key = seq_getitem xs key"
| "data_getitem (DList xs) key = seq_getitem xs key"
| "data_getitem (DSet xs) key = raise TypeError"
| "data_getitem (DFrozenset xs) key = raise TypeError"
| "data_getitem (DDict kvs) key = dict_getitem kvs key"
| "data_getitem (DObject obj) key = raise TypeError"
| "data_getitem (DProxy obj) key = getitem_proxy obj key"

text \<open>
  \<open>data[key] = value\<close>: a dict keeps the position of a key it has and puts
  a new key last.
\<close>

fun dict_store :: "(pyval \<times> pyval) list \<Rightarrow> pyval \<Rightarrow> pyval \<Rightarrow> (pyval \<times> pyval) list" where
  "dict_store [] key v = [(key, v)]"
| "dict_store ((k, w) # kvs) key v =
     (if k = key then (k, v) # kvs else (k, w) # dict_store kvs key v)"

fun list_setitem :: "pyval list \<Rightarrow> pyval \<Rightarrow> pyval \<Rightarrow> exn + pyval list" where
  "list_setitem xs (PInt i) v =
     (case list_index xs i of None \<Rightarrow> raise IndexError | Some j \<Rightarrow> Inr (xs[j := v]))"
| "list_setitem xs key v = raise TypeError"

fun data_setitem :: "pydata \<Rightarrow> pyval \<Rightarrow> pyval \<Rightarrow> exn + pydata" where
  "data_setitem (DTuple xs) key v = raise TypeError"
| "data_setitem (DList xs) key v = bindE (list_setitem xs key v) (\<lambda>ys. Inr (DList ys))"
| "data_setitem (DSet xs) key v = raise TypeError"
| "data_setitem (DFrozenset xs) key v = raise TypeError"
| "data_setitem (DDict kvs) key v =
     (if \<not> hashable key then raise TypeError else Inr (DDict (dict_store kvs key v)))"
| "data_setitem (DObject obj) key v = raise TypeError"
| "data_setitem (DProxy obj) key v =
     bindE (setitem_proxy obj key v) (\<lambda>obj'. Inr (DProxy obj'))"

text \<open>
  \<open>data.pop(key)\<close>, whose result the editor drops. A tuple, a frozenset and
  a \<open>ProxyObject\<close> have no method \<open>pop\<close>; \<open>set.pop\<close> takes no argument.
\<close>

fun list_pop :: "pyval list \<Rightarrow> pyval \<Rightarrow> exn + pyval list" where
  "list_pop xs (PInt i) =
     (case list_index xs i of
        None \<Rightarrow> raise IndexError
      | Some j \<Rightarrow> Inr (take j xs @ drop (Suc j) xs))"
| "list_pop xs key = raise TypeError"

definition dict_pop :: "(pyval \<times> pyval) list \<Rightarrow> pyval \<Rightarrow> exn + (pyval \<times> pyval) list" where
  "dict_pop kvs key =
     (if \<not> hashable key then raise TypeError
      else if map_of kvs key = None then raise KeyError
      else Inr (filter (\<lambda>kv. fst kv \<noteq> key) kvs))"

fun data_pop :: "pydata \<Rightarrow> pyval \<Rightarrow> exn + pydata" where
  "data_pop (DTuple xs) key = raise AttributeError"
| "data_pop (DList xs) key = bindE (list_pop xs key) (\<lambda>ys. Inr (DList ys))"
| "data_pop (DSet xs) key = raise TypeError"
| "data_pop (DFrozenset xs) key = raise AttributeError"
| "data_pop (DDict kvs) key = bindE (dict_pop kvs key) (\<lambda>ys. Inr (DDict ys))"
| "data_pop (DObject obj) key = raise AttributeError"
| "data_pop (DProxy obj) key = raise AttributeError"


text \<open>\<open>len(data)\<close> for a collection.\<close>

fun data_len :: "pydata \<Rightarrow> nat" where
  "data_len (DTuple xs) = length xs"
| "data_len (DList xs) = length xs"
| "data_len (DSet xs) = length xs"
| "data_len (DFrozenset xs) = length xs"
| "data_len (DDict kvs) = length kvs"
| "data_len (DObject obj) = 0"
| "data_len (DProxy obj) = 0"

text \<open>\<open>list(range(len(data)))\<close>.\<close>

definition range_keys :: "'a list \<Rightarrow> pyval list" where
  "range_keys xs = map (\<lambda>i. PInt (int i)) [0..<length xs]"

section \<open>The table model\<close>

text \<open>
  The functions of other modules that the model calls are parameters:
  \<open>get_size\<close>, \<open>get_human_readable_type\<close> and \<open>get_object_attrs\<close> of
  \<open>spyder_kernels\<close>, the order in which a failed \<open>list.sort\<close> leaves a
  list (see \<open>try_sort\<close>), and the attributes that Python shows for a
  \<open>ProxyObject\<close> instance when such an instance is itself handed to
  \<open>set_data\<close>; for the views, \<open>to_text_string\<close> of \<open>spyder.py3compat\<close>
  (\<open>str(x)\<close>) and \<open>try_to_eval\<close> of \<open>spyder_kernels\<close> (\<open>eval\<close> of a
  text, or the text itself when it cannot be evaluated).
\<close>

record env =
  get_size :: "pyval \<Rightarrow> pyval"
  get_human_readable_type :: "pyval \<Rightarrow> string"
  get_object_attrs :: "pyobj \<Rightarrow> pyval list"
  sort_residue :: "bool \<Rightarrow> pyval list \<Rightarrow> nat list"
  proxy_instance :: "pyobj \<Rightarrow> pyobj"
  to_text_string :: "pyval \<Rightarrow> string"
  try_to_eval :: "string \<Rightarrow> pyval"

definition LARGE_NROWS :: nat where
  "LARGE_NROWS = 100"

definition ROWS_TO_LOAD :: nat where
  "ROWS_TO_LOAD = 50"

text \<open>
  The state of a \<open>ReadOnlyCollectionsModel\<close>. The title, the header label
  and the search scores are texts for display that no other field depends
  on; they are left out.
\<close>

record model =
  remote :: bool
  previous_sort :: int
  data :: pydata
  showndata :: pydata
  keys :: "pyval list"
  sizes :: "pyval list"
  types :: "string list"
  total_rows :: nat
  rows_loaded :: nat

text \<open>\<open>xs[index]\<close> for an index that is not negative.\<close>

definition list_get :: "'a list \<Rightarrow> nat \<Rightarrow> exn + 'a" where
  "list_get xs index = (if index < length xs then Inr (xs ! index) else raise IndexError)"

text \<open>
  In remote mode a value is the metadata record of a variable, and
  \<open>data[key]['size']\<close> and \<open>data[key]['type']\<close> read it; subscripting any
  other value of the model with a string raises \<open>TypeError\<close>.
\<close>

fun item_size :: "env \<Rightarrow> bool \<Rightarrow> pyval \<Rightarrow> exn + pyval" where
  "item_size env True (PMeta s t) = Inr s"
| "item_size env True v = raise TypeError"
| "item_size env False v = Inr (get_size env v)"

fun item_type :: "env \<Rightarrow> bool \<Rightarrow> pyval \<Rightarrow> exn + string" where
  "item_type env True (PMeta s t) = Inr t"
| "item_type env True v = raise TypeError"
| "item_type env False v = Inr (get_human_readable_type env v)"

definition row_value :: "model \<Rightarrow> nat \<Rightarrow> exn + pyval" where
  "row_value m index =
     bindE (list_get (keys m) index) (\<lambda>key. data_getitem (data m) key)"

definition set_size_and_type :: "env \<Rightarrow> (nat \<times> nat) option \<Rightarrow> model \<Rightarrow> exn + model" where
  "set_size_and_type env start_stop m =
     (let start = (case start_stop of None \<Rightarrow> 0 | Some r \<Rightarrow> fst r);
          stop = (case start_stop of None \<Rightarrow> rows_loaded m | Some r \<Rightarrow> snd r);
          fetch_more = (start_stop \<noteq> None)
      in bindE (mapE (\<lambda>index. bindE (row_value m index) (item_size env (remote m)))
                [start..<stop]) (\<lambda>sizes'.
         bindE (mapE (\<lambda>index. bindE (row_value m index) (item_type env (remote m)))
                [start..<stop]) (\<lambda>types'.
         if fetch_more
         then Inr (m\<lparr>sizes := sizes m @ sizes', types := types m @ types'\<rparr>)
         else Inr (m\<lparr>sizes := sizes', types := types'\<rparr>))))"

text \<open>
  \<open>set_data(data, coll_filter)\<close>: the filter, if any, is applied
  (\<open>apply_filter\<close>), then the chain of type tests sets the keys
  (\<open>load_keys\<close>). The keys and the branch come from the filtered data; \<open>_data\<close> keeps the unfiltered data, except for a set or a
  frozenset, where it becomes \<open>list(data)\<close>, and for another object, where
  it becomes the \<open>ProxyObject\<close>.
\<close>

definition with_keys :: "env \<Rightarrow> pyval list \<Rightarrow> model \<Rightarrow> exn + model" where
  "with_keys env ks m =
     set_size_and_type env None
       (m\<lparr>keys := ks, total_rows := length ks,
          rows_loaded := (if length ks > LARGE_NROWS then ROWS_TO_LOAD else length ks)\<rparr>)"

definition apply_filter :: "(pydata \<Rightarrow> pydata) option \<Rightarrow> bool \<Rightarrow> pydata \<Rightarrow> pydata" where
  "apply_filter coll_filter remote_flag data0 =
     (case coll_filter of
        None \<Rightarrow> data0
      | Some f \<Rightarrow> if \<not> remote_flag \<and> is_collection data0 then f data0 else data0)"

fun load_keys :: "env \<Rightarrow> pydata \<Rightarrow> model \<Rightarrow> exn + model" where
  "load_keys env (DTuple xs) m = with_keys env (range_keys xs) m"
| "load_keys env (DList xs) m = with_keys env (range_keys xs) m"
| "load_keys env (DSet xs) m = with_keys env (range_keys xs) (m\<lparr>data := DList xs\<rparr>)"
| "load_keys env (DFrozenset xs) m = with_keys env (range_keys xs) (m\<lparr>data := DList xs\<rparr>)"
| "load_keys env (DDict kvs) m = with_keys env (map fst kvs) m"
| "load_keys env (DObject obj) m =
     with_keys env (get_object_attrs env obj)
       (m\<lparr>data := DProxy obj, showndata := DProxy obj\<rparr>)"
| "load_keys env (DProxy obj) m =
     with_keys env (get_object_attrs env (proxy_instance env obj))
       (m\<lparr>data := DProxy (proxy_instance env obj),
          showndata := DProxy (proxy_instance env obj)\<rparr>)"

definition set_data :: "env \<Rightarrow> pydata \<Rightarrow> (pydata \<Rightarrow> pydata) option \<Rightarrow> model \<Rightarrow> exn + model" where
  "set_data env data0 coll_filter m =
     (let data1 = apply_filter coll_filter (remote m) data0
      in load_keys env data1 (m\<lparr>data := data0, showndata := data1\<rparr>))"

text \<open>
  \<open>ReadOnlyCollectionsModel.__init__\<close>: \<open>None\<close> stands for an empty dict.
  \<open>new_model\<close> is the object before \<open>set_data\<close> runs; the fields that
  \<open>__init__\<close> sets to \<open>None\<close> and \<open>set_data\<close> overwrites hold empty
  values there.
\<close>

definition new_model :: "bool \<Rightarrow> model" where
  "new_model remote_flag =
     \<lparr>remote = remote_flag, previous_sort = -1, data = DDict [], showndata = DDict [],
      keys = [], sizes = [], types = [], total_rows = 0, rows_loaded = 0\<rparr>"

definition init_model :: "env \<Rightarrow> bool \<Rightarrow> pydata option \<Rightarrow> exn + model" where
  "init_model env remote_flag data0 =
     set_data env (case data0 of None \<Rightarrow> DDict [] | Some d \<Rightarrow> d) None
       (new_model remote_flag)"

text \<open>
  \<open>fetchMore(index, number_to_fetch)\<close>; the number is a count, \<open>None\<close> when
  Qt calls. \<open>load_all\<close> asks for all rows.
\<close>

definition fetchMore :: "env \<Rightarrow> nat option \<Rightarrow> model \<Rightarrow> exn + model" where
  "fetchMore env number_to_fetch m =
     (if total_rows m \<le> rows_loaded m then Inr m
      else
        let reminder = total_rows m - rows_loaded m;
            items_to_fetch = (case number_to_fetch of
                                Some n \<Rightarrow> min reminder n
                              | None \<Rightarrow> min reminder ROWS_TO_LOAD)
        in bindE (set_size_and_type env
                    (Some (rows_loaded m, rows_loaded m + items_to_fetch)) m) (\<lambda>m'.
           Inr (m'\<lparr>rows_loaded := rows_loaded m + items_to_fetch\<rparr>)))"

definition load_all :: "env \<Rightarrow> model \<Rightarrow> exn + model" where
  "load_all env m = fetchMore env (Some (total_rows m)) m"

text \<open>\<open>rowCount\<close> and \<open>canFetchMore\<close>.\<close>

definition rowCount :: "model \<Rightarrow> nat" where
  "rowCount m = (if total_rows m \<le> rows_loaded m then total_rows m else rows_loaded m)"

definition canFetchMore :: "model \<Rightarrow> bool" where
  "canFetchMore m = (total_rows m > rows_loaded m)"

text \<open>
  \<open>CollectionsModel.set_value(index, value)\<close>, with the row of the index.
\<close>

definition set_value :: "env \<Rightarrow> nat \<Rightarrow> pyval \<Rightarrow> model \<Rightarrow> exn + model" where
  "set_value env row v m =
     bindE (list_get (keys m) row) (\<lambda>key.
     bindE (data_setitem (data m) key v) (\<lambda>d.
     bindE (data_setitem (showndata m) key v) (\<lambda>sd.
     if row < length (sizes m)
     then (if row < length (types m)
           then Inr (m\<lparr>data := d, showndata := sd,
                       sizes := (sizes m)[row := get_size env v],
                       types := (types m)[row := get_human_readable_type env v]\<rparr>)
           else raise IndexError)
     else raise IndexError)))"







section \<open>The table views\<close>

text \<open>
  \<open>CollectionsEditorTableView\<close>. It creates a \<open>ReadOnlyCollectionsModel\<close>
  or a \<open>CollectionsModel\<close>; only the latter has \<open>set_value\<close> and
  \<open>setData\<close>. Two fields follow the collection that the caller handed
  over: \<open>caller_data\<close> is what that object holds, and \<open>aliased\<close> tells
  whether the model's \<open>_data\<close> is that very object (or a \<open>ProxyObject\<close>
  around it), so that a mutation of \<open>_data\<close> in place is a mutation of the
  caller's object. \<open>set_data\<close> of the model keeps the object it is given,
  except that it stores \<open>list(data)\<close>, a new list, for a set or a
  frozenset. The constructor ends by enabling sorting on the header; the
  sort that Qt then runs is not modelled (see \<open>view_set_data\<close>).
\<close>

datatype model_class = ReadOnlyCollectionsModel | CollectionsModel

record view =
  readonly :: bool
  model_class :: model_class
  source_model :: model
  dictfilter :: "(pydata \<Rightarrow> pydata) option"
  caller_data :: pydata
  aliased :: bool

fun is_set_frozenset :: "pydata \<Rightarrow> bool" where
  "is_set_frozenset (DSet xs) = True"
| "is_set_frozenset (DFrozenset xs) = True"
| "is_set_frozenset d = False"

definition init_view :: "env \<Rightarrow> pydata \<Rightarrow> bool \<Rightarrow> exn + view" where
  "init_view env data0 readonly_arg =
     (let ro = (readonly_arg \<or> is_tuple_set_frozenset data0);
          CollectionsModelClass = (if ro then ReadOnlyCollectionsModel else CollectionsModel)
      in bindE (init_model env False (Some data0)) (\<lambda>m.
         Inr \<lparr>readonly = ro, model_class = CollectionsModelClass, source_model = m,
              dictfilter = None, caller_data = data0,
              aliased = (\<not> is_set_frozenset data0)\<rparr>))"

text \<open>
  \<open>BaseTableView.set_data(data)\<close>, called by the operations below with the
  object that \<open>get_data()\<close> returned. It ends with Qt's
  \<open>setSortingEnabled(True)\<close>, which sorts the rows again by the column of the
  header's indicator and is not modelled: it changes neither the collection
  nor the number of rows.
\<close>

definition view_set_data :: "env \<Rightarrow> pydata option \<Rightarrow> view \<Rightarrow> exn + view" where
  "view_set_data env data0 v =
     (case data0 of
        None \<Rightarrow> Inr v
      | Some d \<Rightarrow>
          bindE (set_data env d (dictfilter v) (source_model v)) (\<lambda>m.
          Inr (v\<lparr>source_model := m\<rparr>)))"

text \<open>
  The object that \<open>get_data()\<close> returns has been changed in place to \<open>d\<close>:
  if it is the caller's object, the caller sees the change. A
  \<open>ProxyObject\<close> changes the object it wraps. Handing a \<open>ProxyObject\<close>
  back to \<open>set_data\<close> wraps it again, and the new wrapper no longer reaches
  the caller's object.
\<close>

fun unwrap :: "pydata \<Rightarrow> pydata" where
  "unwrap (DProxy obj) = DObject obj"
| "unwrap d = d"

definition mutated :: "env \<Rightarrow> pydata \<Rightarrow> view \<Rightarrow> exn + view" where
  "mutated env d v =
     view_set_data env (Some d)
       (v\<lparr>caller_data := (if aliased v then unwrap d else caller_data v),
          aliased := (aliased v \<and> is_collection d)\<rparr>)"

text \<open>
  \<open>remove_values(keys)\<close>:
  \<open>for key in sorted(keys, reverse=True): data.pop(key)\<close>, then
  \<open>set_data(data)\<close>.
\<close>

fun pop_all :: "pydata \<Rightarrow> pyval list \<Rightarrow> exn + pydata" where
  "pop_all d [] = Inr d"
| "pop_all d (key # ks) = bindE (data_pop d key) (\<lambda>d'. pop_all d' ks)"

definition remove_values :: "env \<Rightarrow> pyval list \<Rightarrow> view \<Rightarrow> exn + view" where
  "remove_values env ks v =
     bindE (py_sorted Inr py_lt True ks) (\<lambda>sorted_keys.
     bindE (pop_all (data (source_model v)) sorted_keys) (\<lambda>d.
     mutated env d v))"

text \<open>
  \<open>copy_value(orig_key, new_key)\<close>. The second test is an \<open>if\<close>, not an
  \<open>elif\<close>: for a list the \<open>else\<close> branch runs after the \<open>append\<close>.
\<close>

fun list_append :: "pydata \<Rightarrow> pyval \<Rightarrow> pydata" where
  "list_append (DList xs) x = DList (xs @ [x])"
| "list_append d x = d"

fun set_add :: "pydata \<Rightarrow> pyval \<Rightarrow> exn + pydata" where
  "set_add (DSet xs) x = Inr (DSet (if x \<in> set xs then xs else xs @ [x]))"
| "set_add d x = raise AttributeError"

definition copy_value :: "env \<Rightarrow> pyval \<Rightarrow> pyval \<Rightarrow> view \<Rightarrow> exn + view" where
  "copy_value env orig_key new_key v =
     (let d0 = data (source_model v)
      in bindE (if is_list d0
                then bindE (data_getitem d0 orig_key) (\<lambda>x. Inr (list_append d0 x))
                else Inr d0) (\<lambda>d1.
         bindE (if is_set_frozenset d1
                then bindE (data_getitem d1 orig_key) (set_add d1)
                else bindE (data_getitem d1 orig_key) (data_setitem d1 new_key)) (\<lambda>d2.
         mutated env d2 v)))"

text \<open>\<open>new_value(key, value)\<close>.\<close>

definition new_value :: "env \<Rightarrow> pyval \<Rightarrow> pyval \<Rightarrow> view \<Rightarrow> exn + view" where
  "new_value env key val v =
     bindE (data_setitem (data (source_model v)) key val) (\<lambda>d. mutated env d v)"

text \<open>
  Editing a cell ends in \<open>setData\<close> of the model. \<open>CollectionsModel\<close>
  refuses the columns before the value column and calls \<open>set_value\<close> with
  the converted value (here the value as given); a
  \<open>ReadOnlyCollectionsModel\<close> inherits \<open>QAbstractTableModel.setData\<close>,
  which changes nothing and returns \<open>False\<close>.
\<close>

definition setData :: "env \<Rightarrow> nat \<Rightarrow> nat \<Rightarrow> pyval \<Rightarrow> view \<Rightarrow> exn + (bool \<times> view)" where
  "setData env row column val v =
     (case model_class v of
        ReadOnlyCollectionsModel \<Rightarrow> Inr (False, v)
      | CollectionsModel \<Rightarrow>
          if column < 3 then Inr (False, v)
          else bindE (set_value env row val (source_model v)) (\<lambda>m.
               Inr (True, v\<lparr>source_model := m,
                      caller_data := (if aliased v then unwrap (data m) else caller_data v)\<rparr>)))"

text \<open>
  \<open>refresh_menu\<close>: the conditions under which the actions that change the
  collection are enabled, for a valid current index, a selection that is not
  empty and lies in one row.
\<close>

definition condition_edit :: "view \<Rightarrow> bool" where
  "condition_edit v =
     (\<not> is_tuple_set_frozenset (data (source_model v)) \<and> \<not> readonly v)"

definition condition_remove :: "view \<Rightarrow> bool" where
  "condition_remove v =
     (\<not> is_tuple_set_frozenset (data (source_model v)) \<and> \<not> readonly v)"

definition insert_enabled :: "view \<Rightarrow> bool" where
  "insert_enabled v = (is_dict (data (source_model v)) \<and> \<not> readonly v)"

text \<open>
  \<open>BaseTableView.copy_item(erase_original, new_name)\<close>, behind
  \<open>rename_item\<close> (\<open>erase_original=True\<close>) and \<open>duplicate_item\<close>. It is
  written for both views: \<open>copy_value\<close> and \<open>remove_values\<close> are the
  methods of the subclass, and the rows of the selected indexes are mapped
  through the proxy model when there is one. These are parameters, as are
  the selected indexes and the answer of the input dialog (text and
  \<open>valid\<close>), which is used only when the dialog is shown.
\<close>

datatype qindex = InvalidIndex | ValidIndex nat

fun isValid :: "qindex \<Rightarrow> bool" where
  "isValid InvalidIndex = False"
| "isValid (ValidIndex r) = True"

fun index_row :: "qindex \<Rightarrow> int" where
  "index_row InvalidIndex = -1"
| "index_row (ValidIndex r) = int r"

text \<open>\<open>unsorted_unique\<close>: the first occurrence of each element, in order.\<close>

definition unsorted_unique :: "'a list \<Rightarrow> 'a list" where
  "unsorted_unique xs = rev (remdups (rev xs))"

record 'v table_api =
  api_source_model :: "'v \<Rightarrow> model"
  api_map_row :: "qindex \<Rightarrow> int"
  api_copy_value :: "pyval \<Rightarrow> pyval \<Rightarrow> 'v \<Rightarrow> exn + 'v"
  api_remove_values :: "pyval list \<Rightarrow> 'v \<Rightarrow> exn + 'v"

definition int_getitem :: "'a list \<Rightarrow> int \<Rightarrow> exn + 'a" where
  "int_getitem xs i =
     (case list_index xs i of None \<Rightarrow> raise IndexError | Some j \<Rightarrow> Inr (xs ! j))"

text \<open>
  The new key and the flag \<open>valid\<close>: \<open>len(data)\<close> for a list, a set or
  a frozenset, else \<open>new_name\<close> if it is given, else the answer of the
  dialog.
\<close>

definition chosen_key :: "pydata \<Rightarrow> pyval option \<Rightarrow> string \<times> bool \<Rightarrow> pyval \<times> bool" where
  "chosen_key d new_name dialog =
     (if is_list_set_frozenset d then (PInt (int (data_len d)), True)
      else case new_name of
             Some n \<Rightarrow> (n, True)
           | None \<Rightarrow> (PStr (fst dialog), snd dialog))"

definition copy_item :: "env \<Rightarrow> 'v table_api \<Rightarrow> qindex list \<Rightarrow> bool \<Rightarrow> pyval option
    \<Rightarrow> string \<times> bool \<Rightarrow> 'v \<Rightarrow> exn + 'v" where
  "copy_item env api indexes erase_original new_name dialog v =
     (if indexes = [] then Inr v
      else
        let idx_rows = unsorted_unique (map (api_map_row api) indexes)
        in if length idx_rows > 1 \<or> \<not> isValid (hd indexes) then Inr v
           else
             bindE (int_getitem (keys (api_source_model api v)) (hd idx_rows)) (\<lambda>orig_key.
             if erase_original \<and> \<not> is_str orig_key then Inr v
             else
               let new_key = fst (chosen_key (data (api_source_model api v)) new_name dialog);
                   valid = snd (chosen_key (data (api_source_model api v)) new_name dialog)
               in if valid \<and> to_text_string env new_key \<noteq> []
                  then
                    let new_key' = try_to_eval env (to_text_string env new_key)
                    in if new_key' = orig_key then Inr v
                       else bindE (api_copy_value api orig_key new_key' v) (\<lambda>v'.
                            if erase_original then api_remove_values api [orig_key] v'
                            else Inr v')
                  else Inr v))"

text \<open>The methods of \<open>CollectionsEditorTableView\<close>, which has no proxy model.\<close>

definition local_api :: "env \<Rightarrow> view table_api" where
  "local_api env =
     \<lparr>api_source_model = source_model, api_map_row = index_row,
      api_copy_value = copy_value env, api_remove_values = remove_values env\<rparr>"


section \<open>The filter proxy\<close>

text \<open>
  Modelled from the spec: \<open>get_search_regex\<close> of
  \<open>spyder.utils.stringmatching\<close> and the search of the pattern it returns.
  The module is not among the sources. The spec gives the predicate as a
  "case-insensitive substring match against key-name OR type-name" where
  "empty text passes everything": the pattern is represented by the text,
  and \<open>re.search(pattern, s)\<close> finds a match exactly when the text, in lower
  case, is a substring of \<open>s\<close> in lower case.
\<close>

definition get_search_regex :: "string \<Rightarrow> string" where
  "get_search_regex text = text"


text \<open>
  \<open>CollectionsCustomSortFilterProxy\<close>: \<open>set_filter\<close> stores the pattern
  (and asks Qt to filter again); \<open>filterAcceptsRow\<close> reads the key and the
  type of the row from the source model.
\<close>

record proxy =
  pattern :: string

definition set_filter :: "string \<Rightarrow> proxy \<Rightarrow> proxy" where
  "set_filter text p = p\<lparr>pattern := get_search_regex text\<rparr>"


text \<open>
  \<open>RemoteCollectionsEditorTableView.do_find(text)\<close>: blanks are removed and
  the text is put in lower case, all rows are loaded, then the filter is
  set. (The update of the search scores and the sort by score are not
  modelled.)
\<close>

definition do_find :: "env \<Rightarrow> string \<Rightarrow> proxy \<times> model \<Rightarrow> exn + proxy \<times> model" where
  "do_find env text pm =
     bindE (load_all env (snd pm)) (\<lambda>m.
     Inr (set_filter (lower (filter (\<lambda>c. c \<noteq> CHR '' '') text)) (fst pm), m))"


section \<open>Auxiliary predicates\<close>


text \<open>
  The arrays of sizes and types hold one entry for each loaded row, and the
  loaded rows are among the rows and among the keys.
\<close>

definition lockstep :: "model \<Rightarrow> bool" where
  "lockstep m \<longleftrightarrow>
     length (sizes m) = rows_loaded m \<and> length (types m) = rows_loaded m
     \<and> rows_loaded m \<le> total_rows m \<and> rows_loaded m \<le> length (keys m)"


text \<open>A dict has hashable, pairwise distinct keys.\<close>

fun wf_data :: "pydata \<Rightarrow> bool" where
  "wf_data (DDict kvs) = (list_all hashable (map fst kvs) \<and> distinct (map fst kvs))"
| "wf_data d = True"

text \<open>An environment for the examples.\<close>

definition example_env :: env where
  "example_env =
     \<lparr>get_size = (\<lambda>v. PInt 1),
      get_human_readable_type = (\<lambda>v. ''object''),
      get_object_attrs = (\<lambda>obj. map (\<lambda>a. PStr (fst a)) obj),
      sort_residue = (\<lambda>reverse xs. [0..<length xs]),
      proxy_instance = (\<lambda>obj. []),
      to_text_string = (\<lambda>v. case v of PStr s \<Rightarrow> s | _ \<Rightarrow> ''?''),
      try_to_eval = (\<lambda>s. PStr s)\<rparr>"

text \<open>Every key of the model can be read from its data.\<close>

definition readable_keys :: "model \<Rightarrow> bool" where
  "readable_keys m \<longleftrightarrow> (\<forall>k \<in> set (keys m). \<exists>v. data_getitem (data m) k = Inr v)"

text \<open>
  A view that cannot change the caller's collection: it is read-only with
  the read-only model and without a filter, and if the model works on the
  caller's object itself, that object is a tuple.
\<close>

fun is_tuple :: "pydata \<Rightarrow> bool" where
  "is_tuple (DTuple xs) = True"
| "is_tuple d = False"

definition read_only_view :: "view \<Rightarrow> bool" where
  "read_only_view v \<longleftrightarrow>
     readonly v \<and> model_class v = ReadOnlyCollectionsModel \<and> dictfilter v = None
     \<and> (aliased v \<longrightarrow> is_tuple (data (source_model v))
                        \<and> caller_data v = data (source_model v))"

text \<open>
  The view of the examples: the state that \<open>__init__\<close> gives for the dict
  \<open>{1: 'x', 'a': 'y'}\<close>; and a table API whose methods always raise.
\<close>

definition example_dict :: pydata where
  "example_dict = DDict [(PInt 1, PStr ''x''), (PStr ''a'', PStr ''y'')]"

definition example_view :: view where
  "example_view =
     \<lparr>readonly = False, model_class = CollectionsModel,
      source_model =
        \<lparr>remote = False, previous_sort = -1, data = example_dict, showndata = example_dict,
         keys = [PInt 1, PStr ''a''], sizes = [PInt 1, PInt 1],
         types = [''object'', ''object''], total_rows = 2, rows_loaded = 2\<rparr>,
      dictfilter = None, caller_data = example_dict, aliased = True\<rparr>"

definition failing_api :: "view table_api" where
  "failing_api =
     \<lparr>api_source_model = source_model, api_map_row = index_row,
      api_copy_value = (\<lambda>orig_key new_key v. raise RuntimeError),
      api_remove_values = (\<lambda>ks v. raise RuntimeError)\<rparr>"


section \<open>Properties of natural sorting and of the proxy's comparator\<close>

lemma bindE_Inr [simp]: "bindE (Inr v) f = f v"
  by (simp add: bindE_def)

lemma bindE_Inl [simp]: "bindE (Inl e) f = Inl e"
  by (simp add: bindE_def)

lemma bindE_raise [simp]: "bindE (raise c) f = raise c"
  by (simp add: raise_def)

lemma bindE_eq_Inr: "bindE m f = Inr y \<longleftrightarrow> (\<exists>v. m = Inr v \<and> f v = Inr y)"
  by (cases m) auto

lemma raise_neq_Inr [simp]: "raise c \<noteq> Inr v" "Inr v \<noteq> raise c"
  by (simp_all add: raise_def)

lemma mapE_eq_Inr_length: "mapE f xs = Inr ys \<Longrightarrow> length ys = length xs"
  by (induction xs arbitrary: ys) (auto split: sum.splits)






lemma natsort_raises_only:
  "natsort v = Inl e \<Longrightarrow>
     (is_bytes v \<and> e = Exn TypeError []) \<or> (is_str v \<and> e = Exn ValueError [])"
proof (cases v)
  case (PStr s)
  assume a: "natsort v = Inl e"
  have tok: "\<And>t e. natsort_tok t = Inl e \<Longrightarrow> e = Exn ValueError []"
    by (auto simp: natsort_tok_def py_int_def raise_def split: if_splits)
  have "\<And>e. mapE natsort_tok ts = Inl e \<Longrightarrow> e = Exn ValueError []" for ts
    by (induction ts) (auto split: sum.splits dest: tok)
  with a PStr show ?thesis by (cases "mapE natsort_tok (re_split s)") auto
qed (auto simp: raise_def)

text \<open>
  C3 (the code departs from the claim). \<open>natsort\<close> takes the branch of text
  for a byte string, where \<open>re.split\<close> is called with a \<open>str\<close> pattern on a
  \<open>bytes\<close> argument: \<open>natsort(b'a1')\<close> raises \<open>TypeError\<close> instead of
  returning a result. It also raises for a text with a run of superscript
  digits, which \<open>isdigit\<close> accepts and \<open>int\<close> rejects:
  \<open>natsort('\<twosuperior>')\<close> raises \<open>ValueError\<close>.
\<close>

theorem natsort_bytes_raises:
  "natsort (PBytes ''a1'') = Inl (Exn TypeError [])
   \<and> natsort (PStr [CHR 0xB2]) = Inl (Exn ValueError [])"
  by (simp add: raise_def re_split.simps is_ascii_digit_def natsort_tok_def isdigit_def
      is_digit_char_def py_int_def)




section \<open>Properties of ProxyObject\<close>

text \<open>
  C9 (counterexample). An attribute whose setter raises \<open>ValueError\<close>:
  reading a raising attribute of that class gives \<open>None\<close>, but writing
  re-raises the error, since \<open>__setitem__\<close> does not list \<open>ValueError\<close>.
\<close>

theorem setitem_proxy_reraises_ValueError:
  "setitem_proxy [(''freq'', Slot (Inl (Exn ValueError ''bad'')) (Some (Exn ValueError ''bad'')))]
     (PStr ''freq'') (PInt 2) = Inl (Exn ValueError ''bad'')
   \<and> getitem_proxy [(''freq'', Slot (Inl (Exn ValueError ''bad'')) (Some (Exn ValueError ''bad'')))]
     (PStr ''freq'') = Inr PNone"
  by (simp add: setitem_proxy_def getitem_proxy_def)

text \<open>
  C9 (amended). \<open>__getitem__\<close> returns \<open>None\<close> when the read raises
  \<open>NotImplementedError\<close>, \<open>AttributeError\<close>, \<open>TypeError\<close> or
  \<open>ValueError\<close>. \<open>__setitem__\<close> discards \<open>TypeError\<close>,
  \<open>AttributeError\<close> and \<open>NotImplementedError\<close>, and any other
  \<open>Exception\<close> whose text contains \<open>cannot set values for\<close>, leaving the
  object as it was; it re-raises every other exception unchanged.
\<close>

theorem proxy_error_handling:
  "(getattr obj key = Inl e
      \<and> exc_cls e \<in> {NotImplementedError, AttributeError, TypeError, ValueError}
      \<longrightarrow> getitem_proxy obj key = Inr PNone)
   \<and> (setattr obj key v = Inl e
      \<and> (exc_cls e \<in> {TypeError, AttributeError, NotImplementedError}
          \<or> (is_Exception (exc_cls e) \<and> contains (exc_str e) ''cannot set values for''))
      \<longrightarrow> setitem_proxy obj key v = Inr obj)
   \<and> (setattr obj key v = Inl e
      \<and> exc_cls e \<notin> {TypeError, AttributeError, NotImplementedError}
      \<and> \<not> (is_Exception (exc_cls e) \<and> contains (exc_str e) ''cannot set values for'')
      \<longrightarrow> setitem_proxy obj key v = Inl e)"
  by (auto simp: getitem_proxy_def setitem_proxy_def)

theorem proxy_error_handling_witness:
  "getitem_proxy [(''a'', Slot (Inl (Exn NotImplementedError ''na'')) None)] (PStr ''a'') = Inr PNone
   \<and> setitem_proxy [(''a'', Slot (Inr PNone) (Some (Exn RuntimeError ''cannot set values for [a]'')))]
        (PStr ''a'') (PInt 1)
      = Inr [(''a'', Slot (Inr PNone) (Some (Exn RuntimeError ''cannot set values for [a]'')))]
   \<and> setitem_proxy [(''a'', Slot (Inr PNone) (Some (Exn RuntimeError ''no'')))]
        (PStr ''a'') (PInt 1) = Inl (Exn RuntimeError ''no'')"
proof -
  have g: "getattr [(''a'', Slot (Inl (Exn NotImplementedError ''na'')) None)] (PStr ''a'')
             = Inl (Exn NotImplementedError ''na'')"
    by simp
  have a: "getitem_proxy [(''a'', Slot (Inl (Exn NotImplementedError ''na'')) None)] (PStr ''a'')
             = Inr PNone"
    using proxy_error_handling
      [where obj = "[(''a'', Slot (Inl (Exn NotImplementedError ''na'')) None)]"
         and key = "PStr ''a''" and e = "Exn NotImplementedError ''na''"] g
    by simp
  have s1: "setattr [(''a'', Slot (Inr PNone) (Some (Exn RuntimeError ''cannot set values for [a]'')))]
              (PStr ''a'') (PInt 1) = Inl (Exn RuntimeError ''cannot set values for [a]'')"
    by simp
  have c1: "contains ''cannot set values for [a]'' ''cannot set values for''"
    by simp
  have b: "setitem_proxy [(''a'', Slot (Inr PNone) (Some (Exn RuntimeError ''cannot set values for [a]'')))]
        (PStr ''a'') (PInt 1)
      = Inr [(''a'', Slot (Inr PNone) (Some (Exn RuntimeError ''cannot set values for [a]'')))]"
    using proxy_error_handling
      [where obj = "[(''a'', Slot (Inr PNone) (Some (Exn RuntimeError ''cannot set values for [a]'')))]"
         and key = "PStr ''a''" and v = "PInt 1"
         and e = "Exn RuntimeError ''cannot set values for [a]''"] s1 c1
    by simp
  have s2: "setattr [(''a'', Slot (Inr PNone) (Some (Exn RuntimeError ''no'')))]
              (PStr ''a'') (PInt 1) = Inl (Exn RuntimeError ''no'')"
    by simp
  have c2: "\<not> contains ''no'' ''cannot set values for''"
    by simp
  have c: "setitem_proxy [(''a'', Slot (Inr PNone) (Some (Exn RuntimeError ''no'')))]
        (PStr ''a'') (PInt 1) = Inl (Exn RuntimeError ''no'')"
    using proxy_error_handling
      [where obj = "[(''a'', Slot (Inr PNone) (Some (Exn RuntimeError ''no'')))]"
         and key = "PStr ''a''" and v = "PInt 1" and e = "Exn RuntimeError ''no''"] s2 c2
    by simp
  show ?thesis using a b c by simp
qed


section \<open>Properties of the table model\<close>


lemma mapE_total:
  "(\<And>x. x \<in> set xs \<Longrightarrow> \<exists>y. f x = Inr y) \<Longrightarrow> \<exists>ys. mapE f xs = Inr ys"
proof (induction xs)
  case Nil
  then show ?case by simp
next
  case (Cons x xs)
  from Cons.prems [of x] obtain y where y: "f x = Inr y" by auto
  from Cons.IH Cons.prems obtain ys where "mapE f xs = Inr ys" by auto
  with y show ?case by simp
qed

lemma mapE_cong:
  "(\<And>x. x \<in> set xs \<Longrightarrow> f x = g x) \<Longrightarrow> mapE f xs = mapE g xs"
  by (induction xs) (auto split: sum.splits)











lemma set_size_and_type_None:
  assumes "set_size_and_type env None m = Inr m'"
  shows "m' = m\<lparr>sizes := sizes m', types := types m'\<rparr>"
    and "length (sizes m') = rows_loaded m" and "length (types m') = rows_loaded m"
  using assms
  by (auto simp: set_size_and_type_def Let_def bindE_eq_Inr dest!: mapE_eq_Inr_length)



lemma with_keys_Inr:
  assumes "with_keys env ks m = Inr m'"
  shows "keys m' = ks" and "total_rows m' = length ks"
    and "rows_loaded m' = (if length ks > LARGE_NROWS then ROWS_TO_LOAD else length ks)"
    and "length (sizes m') = rows_loaded m'" and "length (types m') = rows_loaded m'"
    and "data m' = data m" and "showndata m' = showndata m"
    and "previous_sort m' = previous_sort m" and "remote m' = remote m"
proof -
  let ?m1 = "m\<lparr>keys := ks, total_rows := length ks,
          rows_loaded := (if length ks > LARGE_NROWS then ROWS_TO_LOAD else length ks)\<rparr>"
  from assms have s: "set_size_and_type env None ?m1 = Inr m'"
    by (simp add: with_keys_def)
  from set_size_and_type_None [OF s]
  have e: "m' = ?m1\<lparr>sizes := sizes m', types := types m'\<rparr>"
    and l: "length (sizes m') = rows_loaded ?m1" "length (types m') = rows_loaded ?m1"
    by auto
  have k: "keys m' = ks" by (subst e) simp
  have t: "total_rows m' = length ks" by (subst e) simp
  have r: "rows_loaded m' = (if length ks > LARGE_NROWS then ROWS_TO_LOAD else length ks)"
    by (subst e) simp
  show "keys m' = ks" by (rule k)
  show "total_rows m' = length ks" by (rule t)
  show "rows_loaded m' = (if length ks > LARGE_NROWS then ROWS_TO_LOAD else length ks)"
    by (rule r)
  show "length (sizes m') = rows_loaded m'" using l(1) r by simp
  show "length (types m') = rows_loaded m'" using l(2) r by simp
  show "data m' = data m" by (subst e) simp
  show "showndata m' = showndata m" by (subst e) simp
  show "previous_sort m' = previous_sort m" by (subst e) simp
  show "remote m' = remote m" by (subst e) simp
qed

lemma with_keys_lockstep:
  assumes "with_keys env ks m = Inr m'"
  shows "lockstep m'" and "length (keys m') = total_rows m'"
  using with_keys_Inr(1-5) [OF assms]
  by (auto simp: lockstep_def LARGE_NROWS_def ROWS_TO_LOAD_def split: if_splits)

lemma load_keys_with_keys:
  "load_keys env d1 m = Inr m' \<Longrightarrow>
     \<exists>ks m1. with_keys env ks m1 = Inr m' \<and> remote m1 = remote m
       \<and> previous_sort m1 = previous_sort m"
  by (cases d1) ((intro exI conjI, (assumption | simp)+)[1])+

lemma set_data_with_keys:
  assumes "set_data env d f m = Inr m'"
  shows "\<exists>ks m1. with_keys env ks m1 = Inr m' \<and> remote m1 = remote m
      \<and> previous_sort m1 = previous_sort m"
  using assms load_keys_with_keys [of env "apply_filter f (remote m) d"
      "m\<lparr>data := d, showndata := apply_filter f (remote m) d\<rparr>" m']
  by (simp add: set_data_def Let_def)

lemma set_data_Inr:
  assumes "set_data env d f m = Inr m'"
  shows "lockstep m'" and "length (keys m') = total_rows m'"
    and "rows_loaded m' = (if total_rows m' > LARGE_NROWS then ROWS_TO_LOAD else total_rows m')"
    and "previous_sort m' = previous_sort m" and "remote m' = remote m"
proof -
  from set_data_with_keys [OF assms] obtain ks m1 where
    w: "with_keys env ks m1 = Inr m'" and r: "remote m1 = remote m"
    and p: "previous_sort m1 = previous_sort m"
    by blast
  show "lockstep m'" by (rule with_keys_lockstep(1) [OF w])
  show "length (keys m') = total_rows m'" by (rule with_keys_lockstep(2) [OF w])
  show "rows_loaded m' = (if total_rows m' > LARGE_NROWS then ROWS_TO_LOAD else total_rows m')"
    using with_keys_Inr(2,3) [OF w] by simp
  show "previous_sort m' = previous_sort m" using with_keys_Inr(8) [OF w] p by simp
  show "remote m' = remote m" using with_keys_Inr(9) [OF w] r by simp
qed





lemma lockstep_previous_sort [simp]: "lockstep (m\<lparr>previous_sort := c\<rparr>) = lockstep m"
  by (simp add: lockstep_def)




lemma list_index_nat [simp]: "i < length xs \<Longrightarrow> list_index xs (int i) = Some i"
  by (simp add: list_index_def Let_def)

lemma seq_getitem_range: "k \<in> set (range_keys xs) \<Longrightarrow> \<exists>v. seq_getitem xs k = Inr v"
  by (auto simp: range_keys_def)

lemma dict_getitem_key:
  assumes "list_all hashable (map fst kvs)" and "k \<in> set (map fst kvs)"
  shows "\<exists>v. dict_getitem kvs k = Inr v"
proof -
  from assms have h: "hashable k" by (auto simp: list_all_iff)
  from assms(2) have "map_of kvs k \<noteq> None" by (simp add: map_of_eq_None_iff)
  with h show ?thesis by (auto simp: dict_getitem_def)
qed

lemma set_size_and_type_local_total:
  assumes "\<not> remote m" and "readable_keys m"
    and "(case rng of None \<Rightarrow> rows_loaded m | Some r \<Rightarrow> snd r) \<le> length (keys m)"
  shows "\<exists>m'. set_size_and_type env rng m = Inr m'"
proof -
  define a where "a = (case rng of None \<Rightarrow> 0 | Some r \<Rightarrow> fst r)"
  define b where "b = (case rng of None \<Rightarrow> rows_loaded m | Some r \<Rightarrow> snd r)"
  have rv: "\<exists>v. row_value m i = Inr v" if "i \<in> set [a..<b]" for i
  proof -
    from that assms(3) have "i < length (keys m)" by (simp add: b_def)
    then show ?thesis
      using assms(2) by (auto simp: row_value_def list_get_def readable_keys_def)
  qed
  have "\<exists>y. bindE (row_value m i) (item_size env (remote m)) = Inr y" if "i \<in> set [a..<b]" for i
    using rv [OF that] assms(1) by auto
  from mapE_total [of "[a..<b]" "\<lambda>i. bindE (row_value m i) (item_size env (remote m))", OF this]
  obtain xs where xs: "mapE (\<lambda>i. bindE (row_value m i) (item_size env (remote m))) [a..<b] = Inr xs"
    by auto
  have "\<exists>y. bindE (row_value m i) (item_type env (remote m)) = Inr y" if "i \<in> set [a..<b]" for i
    using rv [OF that] assms(1) by auto
  from mapE_total [of "[a..<b]" "\<lambda>i. bindE (row_value m i) (item_type env (remote m))", OF this]
  obtain ts where ts: "mapE (\<lambda>i. bindE (row_value m i) (item_type env (remote m))) [a..<b] = Inr ts"
    by auto
  show ?thesis
    using xs ts by (simp add: set_size_and_type_def Let_def a_def [symmetric] b_def [symmetric])
qed

lemma readable_keys_cong:
  "keys m' = keys m \<Longrightarrow> data m' = data m \<Longrightarrow> readable_keys m' = readable_keys m"
  by (simp add: readable_keys_def)

lemma with_keys_local_total:
  assumes "\<not> remote m" and "\<forall>k \<in> set ks. \<exists>v. data_getitem (data m) k = Inr v"
  shows "\<exists>m'. with_keys env ks m = Inr m' \<and> readable_keys m' \<and> \<not> remote m'"
proof -
  let ?m1 = "m\<lparr>keys := ks, total_rows := length ks,
          rows_loaded := (if length ks > LARGE_NROWS then ROWS_TO_LOAD else length ks)\<rparr>"
  have r: "readable_keys ?m1" using assms(2) by (simp add: readable_keys_def)
  have "\<exists>m'. set_size_and_type env None ?m1 = Inr m'"
    using assms(1) r
    by (intro set_size_and_type_local_total) (auto simp: LARGE_NROWS_def ROWS_TO_LOAD_def)
  then obtain m' where m': "with_keys env ks m = Inr m'" by (auto simp: with_keys_def)
  from with_keys_Inr [OF m'] have "keys m' = ks" "data m' = data m" "remote m' = remote m"
    by auto
  with assms m' show ?thesis by (auto simp: readable_keys_def)
qed

lemma load_keys_local_total:
  assumes "\<not> remote m" and "is_collection d" and "wf_data d" and "data m = d"
  shows "\<exists>m'. load_keys env d m = Inr m' \<and> readable_keys m' \<and> \<not> remote m'
           \<and> total_rows m' = data_len d"
proof -
  have "\<exists>m'. load_keys env d m = Inr m' \<and> readable_keys m' \<and> \<not> remote m'"
  proof (cases d)
    case (DTuple xs)
    with assms with_keys_local_total [of m "range_keys xs" env] show ?thesis
      by (auto dest: seq_getitem_range)
  next
    case (DList xs)
    with assms with_keys_local_total [of m "range_keys xs" env] show ?thesis
      by (auto dest: seq_getitem_range)
  next
    case (DSet xs)
    with assms with_keys_local_total [of "m\<lparr>data := DList xs\<rparr>" "range_keys xs" env]
    show ?thesis by (auto dest: seq_getitem_range)
  next
    case (DFrozenset xs)
    with assms with_keys_local_total [of "m\<lparr>data := DList xs\<rparr>" "range_keys xs" env]
    show ?thesis by (auto dest: seq_getitem_range)
  next
    case (DDict kvs)
    with assms with_keys_local_total [of m "map fst kvs" env] show ?thesis
      using dict_getitem_key [of kvs] by auto
  next
    case (DObject obj)
    with assms show ?thesis by simp
  next
    case (DProxy obj)
    with assms show ?thesis by simp
  qed
  then obtain m' where m': "load_keys env d m = Inr m'" "readable_keys m'" "\<not> remote m'"
    by blast
  from load_keys_with_keys [OF m'(1)] obtain ks m1 where w: "with_keys env ks m1 = Inr m'"
    by blast
  have "total_rows m' = data_len d"
    using m'(1) assms(2)
    by (cases d) (auto dest!: with_keys_Inr(2) simp: range_keys_def)
  with m' show ?thesis by blast
qed

lemma set_data_local_total:
  assumes "\<not> remote m" and "is_collection d" and "wf_data d"
  shows "\<exists>m'. set_data env d None m = Inr m' \<and> readable_keys m' \<and> \<not> remote m'
           \<and> total_rows m' = data_len d"
  using load_keys_local_total [of "m\<lparr>data := d, showndata := d\<rparr>" d env] assms
  by (simp add: set_data_def apply_filter_def)






lemma new_model_simps [simp]:
  "remote (new_model r) = r" "previous_sort (new_model r) = -1"
  by (simp_all add: new_model_def)














section \<open>Properties of the views\<close>

text \<open>
  C6. A rename (\<open>copy_item\<close> with \<open>erase_original=True\<close>) of a key that is
  not a \<open>str\<close> returns with the view as it was; so does a rename or a
  duplication whose new key, as evaluated from the text entered
  (\<open>try_to_eval(to_text_string(new_key))\<close>), equals the source key. The
  methods \<open>copy_value\<close> and \<open>remove_values\<close> are arbitrary here, so they
  are not called.
\<close>

theorem rename_rejected_or_noop:
  "(int_getitem (keys (api_source_model api v))
        (hd (unsorted_unique (map (api_map_row api) indexes))) = Inr orig_key
      \<and> \<not> is_str orig_key
      \<longrightarrow> copy_item env api indexes True new_name dialog v = Inr v)
   \<and> (int_getitem (keys (api_source_model api v))
        (hd (unsorted_unique (map (api_map_row api) indexes))) = Inr orig_key
      \<and> try_to_eval env (to_text_string env
            (fst (chosen_key (data (api_source_model api v)) new_name dialog))) = orig_key
      \<longrightarrow> copy_item env api indexes erase_original new_name dialog v = Inr v)"
  by (simp add: copy_item_def Let_def)

lemma init_example_view: "init_view example_env example_dict False = Inr example_view"
  by (simp add: init_view_def init_model_def set_data_def apply_filter_def new_model_def
      with_keys_def LARGE_NROWS_def set_size_and_type_def row_value_def list_get_def
      dict_getitem_def example_env_def example_dict_def example_view_def upt_rec Let_def
      numeral_2_eq_2)

theorem rename_rejected_or_noop_witness:
  "copy_item example_env failing_api [ValidIndex 0] True None (''b'', True) example_view
     = Inr example_view
   \<and> copy_item example_env failing_api [ValidIndex 1] True None (''a'', True) example_view
     = Inr example_view
   \<and> copy_item example_env failing_api [ValidIndex 1] True None (''b'', True) example_view
     = Inl (Exn RuntimeError [])"
proof -
  have k0: "int_getitem (keys (api_source_model failing_api example_view))
      (hd (unsorted_unique (map (api_map_row failing_api) [ValidIndex 0]))) = Inr (PInt 1)"
    by (simp add: failing_api_def example_view_def unsorted_unique_def int_getitem_def
        list_index_def)
  have k1: "int_getitem (keys (api_source_model failing_api example_view))
      (hd (unsorted_unique (map (api_map_row failing_api) [ValidIndex 1]))) = Inr (PStr ''a'')"
    by (simp add: failing_api_def example_view_def unsorted_unique_def int_getitem_def
        list_index_def)
  have a: "copy_item example_env failing_api [ValidIndex 0] True None (''b'', True) example_view
     = Inr example_view"
    using rename_rejected_or_noop [where api = failing_api and v = example_view
        and indexes = "[ValidIndex 0]" and orig_key = "PInt 1" and env = example_env
        and new_name = None and dialog = "(''b'', True)"] k0
    by simp
  have e: "try_to_eval example_env (to_text_string example_env
        (fst (chosen_key (data (api_source_model failing_api example_view)) None (''a'', True))))
      = PStr ''a''"
    by (simp add: chosen_key_def failing_api_def example_view_def example_dict_def
        example_env_def)
  have b: "copy_item example_env failing_api [ValidIndex 1] True None (''a'', True) example_view
     = Inr example_view"
    using rename_rejected_or_noop [where api = failing_api and v = example_view
        and indexes = "[ValidIndex 1]" and orig_key = "PStr ''a''" and env = example_env
        and new_name = None and dialog = "(''a'', True)" and erase_original = True] k1 e
    by simp
  have c: "copy_item example_env failing_api [ValidIndex 1] True None (''b'', True) example_view
     = Inl (Exn RuntimeError [])"
    using k1
    by (simp add: copy_item_def Let_def chosen_key_def failing_api_def example_view_def
        example_dict_def example_env_def raise_def unsorted_unique_def)
  from a b c show ?thesis by simp
qed



lemma contains_empty [simp]: "contains s []"
  by (cases s) auto



lemma load_keys_data:
  assumes "load_keys env d m = Inr m'" and "is_collection d" and "data m = d"
  shows "data m' = (if is_set_frozenset d then DList (case d of DSet xs \<Rightarrow> xs
            | DFrozenset xs \<Rightarrow> xs | _ \<Rightarrow> []) else d)"
  using assms by (cases d) (auto dest!: with_keys_Inr(6))

lemma set_data_eq:
  "set_data env d f m =
     load_keys env (apply_filter f (remote m) d)
       (m\<lparr>data := d, showndata := apply_filter f (remote m) d\<rparr>)"
  by (simp add: set_data_def Let_def)

lemma set_data_None_tuple:
  "set_data env (DTuple xs) None m = Inr m' \<Longrightarrow> data m' = DTuple xs"
  using load_keys_data [of env "DTuple xs" "m\<lparr>data := DTuple xs, showndata := DTuple xs\<rparr>" m']
  by (simp add: set_data_eq apply_filter_def)

lemma init_model_tuple:
  "init_model env r (Some (DTuple xs)) = Inr m \<Longrightarrow> data m = DTuple xs"
  by (simp add: init_model_def set_data_None_tuple)

lemma view_set_data_Inr:
  assumes "view_set_data env (Some d) v = Inr v'"
  shows "readonly v' = readonly v" and "model_class v' = model_class v"
    and "dictfilter v' = dictfilter v" and "caller_data v' = caller_data v"
    and "aliased v' = aliased v"
    and "set_data env d (dictfilter v) (source_model v) = Inr (source_model v')"
  using assms by (auto simp: view_set_data_def bindE_eq_Inr)

lemma mutated_Inr:
  assumes "mutated env d v = Inr v'"
  shows "readonly v' = readonly v" and "model_class v' = model_class v"
    and "dictfilter v' = dictfilter v"
    and "caller_data v' = (if aliased v then unwrap d else caller_data v)"
    and "aliased v' = (aliased v \<and> is_collection d)"
    and "set_data env d (dictfilter v) (source_model v) = Inr (source_model v')"
  using assms view_set_data_Inr [of env d
      "v\<lparr>caller_data := (if aliased v then unwrap d else caller_data v),
         aliased := (aliased v \<and> is_collection d)\<rparr>" v']
  by (simp_all add: mutated_def)

lemma mutated_read_only:
  assumes "mutated env d v = Inr v'" and "read_only_view v"
    and "aliased v \<Longrightarrow> d = data (source_model v)"
  shows "read_only_view v' \<and> caller_data v' = caller_data v"
proof (cases "aliased v")
  case False
  with mutated_Inr [OF assms(1)] assms(2) show ?thesis by (simp add: read_only_view_def)
next
  case True
  with assms(2) obtain xs where xs: "data (source_model v) = DTuple xs"
    "caller_data v = DTuple xs" "dictfilter v = None"
    by (cases "data (source_model v)") (auto simp: read_only_view_def)
  with assms(3) True have d: "d = DTuple xs" by simp
  from mutated_Inr(6) [OF assms(1)] xs(3) d
  have "data (source_model v') = DTuple xs" by (simp add: set_data_None_tuple)
  with mutated_Inr(1-5) [OF assms(1)] assms(2) d xs True show ?thesis
    by (simp add: read_only_view_def)
qed

lemma pop_all_tuple: "pop_all (DTuple xs) ks = Inr d \<Longrightarrow> d = DTuple xs"
  by (cases ks) (auto simp: bindE_eq_Inr)

lemma remove_values_read_only:
  assumes "remove_values env ks v = Inr v'" and "read_only_view v"
  shows "read_only_view v' \<and> caller_data v' = caller_data v"
proof -
  from assms(1) obtain sks d where p: "pop_all (data (source_model v)) sks = Inr d"
    and m: "mutated env d v = Inr v'"
    by (auto simp: remove_values_def bindE_eq_Inr)
  have "d = data (source_model v)" if "aliased v"
  proof -
    from that assms(2) obtain xs where "data (source_model v) = DTuple xs"
      by (cases "data (source_model v)") (auto simp: read_only_view_def)
    with p show ?thesis by (auto dest: pop_all_tuple)
  qed
  with mutated_read_only [OF m assms(2)] show ?thesis by blast
qed

lemma copy_value_read_only:
  assumes "copy_value env k nk v = Inr v'" and "read_only_view v"
  shows "read_only_view v' \<and> caller_data v' = caller_data v"
proof (cases "aliased v")
  case True
  with assms(2) obtain xs where "data (source_model v) = DTuple xs"
    by (cases "data (source_model v)") (auto simp: read_only_view_def)
  with assms(1) show ?thesis
    by (auto simp: copy_value_def Let_def bindE_eq_Inr)
next
  case False
  from assms(1) obtain d where "mutated env d v = Inr v'"
    by (auto simp: copy_value_def Let_def bindE_eq_Inr)
  from mutated_read_only [OF this assms(2)] False show ?thesis by simp
qed

lemma new_value_read_only:
  assumes "new_value env k x v = Inr v'" and "read_only_view v"
  shows "read_only_view v' \<and> caller_data v' = caller_data v"
proof (cases "aliased v")
  case True
  with assms(2) obtain xs where "data (source_model v) = DTuple xs"
    by (cases "data (source_model v)") (auto simp: read_only_view_def)
  with assms(1) show ?thesis
    by (auto simp: new_value_def bindE_eq_Inr)
next
  case False
  from assms(1) obtain d where "mutated env d v = Inr v'"
    by (auto simp: new_value_def bindE_eq_Inr)
  from mutated_read_only [OF this assms(2)] False show ?thesis by simp
qed

lemma copy_item_cases:
  assumes "copy_item env api idx er nn dlg v = Inr v'"
  shows "v' = v \<or> (\<exists>k nk. api_copy_value api k nk v = Inr v')
     \<or> (\<exists>k nk v1 ks. api_copy_value api k nk v = Inr v1 \<and> api_remove_values api ks v1 = Inr v')"
  using assms
  by (auto simp: copy_item_def Let_def bindE_eq_Inr split: if_splits)

lemma copy_item_read_only:
  assumes "copy_item env (local_api env) idx er nn dlg v = Inr v'" and "read_only_view v"
  shows "read_only_view v' \<and> caller_data v' = caller_data v"
proof -
  from copy_item_cases [OF assms(1)]
  consider "v' = v" | k nk where "copy_value env k nk v = Inr v'"
    | k nk v1 ks where "copy_value env k nk v = Inr v1" "remove_values env ks v1 = Inr v'"
    by (auto simp: local_api_def)
  then show ?thesis
  proof cases
    case 1
    with assms(2) show ?thesis by simp
  next
    case 2
    from copy_value_read_only [OF this assms(2)] show ?thesis .
  next
    case 3
    from copy_value_read_only [OF 3(1) assms(2)]
    have "read_only_view v1" "caller_data v1 = caller_data v" by simp_all
    with remove_values_read_only [OF 3(2)] show ?thesis by simp
  qed
qed

lemma init_view_read_only:
  assumes "is_tuple_set_frozenset d" and "init_view env d ro = Inr v"
  shows "readonly v" and "model_class v = ReadOnlyCollectionsModel" and "caller_data v = d"
    and "read_only_view v"
proof -
  from assms(2) obtain m where m: "init_model env False (Some d) = Inr m"
    and v: "v = \<lparr>readonly = (ro \<or> is_tuple_set_frozenset d),
          model_class = (if ro \<or> is_tuple_set_frozenset d then ReadOnlyCollectionsModel
                         else CollectionsModel),
          source_model = m, dictfilter = None, caller_data = d,
          aliased = (\<not> is_set_frozenset d)\<rparr>"
    by (auto simp: init_view_def Let_def bindE_eq_Inr)
  show "readonly v" "model_class v = ReadOnlyCollectionsModel" "caller_data v = d"
    using assms(1) by (simp_all add: v)
  show "read_only_view v"
  proof (cases d)
    case (DTuple xs)
    with m have "data m = DTuple xs" by (simp add: init_model_tuple)
    with DTuple show ?thesis by (simp add: v read_only_view_def)
  qed (use assms(1) in \<open>simp_all add: v read_only_view_def\<close>)
qed

lemma read_only_view_conditions:
  assumes "read_only_view v"
  shows "\<not> condition_edit v" and "\<not> condition_remove v" and "\<not> insert_enabled v"
    and "setData env row col x v = Inr (False, v)"
  using assms
  by (simp_all add: read_only_view_def condition_edit_def condition_remove_def
      insert_enabled_def setData_def)

text \<open>
  C10. A \<open>CollectionsEditorTableView\<close> over a tuple, a set or a frozenset
  is read-only whatever the argument \<open>readonly\<close>, and uses the model
  without \<open>set_value\<close>. For such a view the actions that edit, insert,
  remove, rename or duplicate are disabled and \<open>setData\<close> changes nothing;
  and \<open>remove_values\<close>, \<open>copy_value\<close>, \<open>new_value\<close> and \<open>copy_item\<close>
  (rename and duplicate), when they return, leave the caller's collection as
  it was and the view read-only: on a tuple every change raises, and for a
  set or a frozenset the model works on its own list, not on the caller's
  object.
\<close>

theorem tuple_set_frozenset_forced_read_only:
  "(is_tuple_set_frozenset d \<and> init_view env d ro = Inr v \<longrightarrow>
      readonly v \<and> model_class v = ReadOnlyCollectionsModel \<and> caller_data v = d
      \<and> read_only_view v)
   \<and> (read_only_view v \<longrightarrow>
        \<not> condition_edit v \<and> \<not> condition_remove v \<and> \<not> insert_enabled v
        \<and> setData env row col x v = Inr (False, v)
        \<and> (remove_values env ks v = Inr v' \<longrightarrow>
              read_only_view v' \<and> caller_data v' = caller_data v)
        \<and> (copy_value env k nk v = Inr v' \<longrightarrow>
              read_only_view v' \<and> caller_data v' = caller_data v)
        \<and> (new_value env k x v = Inr v' \<longrightarrow>
              read_only_view v' \<and> caller_data v' = caller_data v)
        \<and> (copy_item env (local_api env) idx er nn dlg v = Inr v' \<longrightarrow>
              read_only_view v' \<and> caller_data v' = caller_data v))"
proof (intro conjI impI)
  assume a: "is_tuple_set_frozenset d \<and> init_view env d ro = Inr v"
  then show "readonly v" "model_class v = ReadOnlyCollectionsModel" "caller_data v = d"
    "read_only_view v"
    using init_view_read_only by blast+
next
  assume r: "read_only_view v"
  then show "\<not> condition_edit v" "\<not> condition_remove v" "\<not> insert_enabled v"
    "setData env row col x v = Inr (False, v)"
    by (rule read_only_view_conditions)+
  {
    assume "remove_values env ks v = Inr v'"
    from remove_values_read_only [OF this r]
    show "read_only_view v'" "caller_data v' = caller_data v" by simp_all
  }
  {
    assume "copy_value env k nk v = Inr v'"
    from copy_value_read_only [OF this r]
    show "read_only_view v'" "caller_data v' = caller_data v" by simp_all
  }
  {
    assume "new_value env k x v = Inr v'"
    from new_value_read_only [OF this r]
    show "read_only_view v'" "caller_data v' = caller_data v" by simp_all
  }
  {
    assume "copy_item env (local_api env) idx er nn dlg v = Inr v'"
    from copy_item_read_only [OF this r]
    show "read_only_view v'" "caller_data v' = caller_data v" by simp_all
  }
qed

theorem tuple_set_frozenset_forced_read_only_witness:
  "\<exists>v v'. init_view example_env (DSet [PInt 7, PInt 8]) False = Inr v
     \<and> readonly v \<and> model_class v = ReadOnlyCollectionsModel
     \<and> \<not> condition_remove v
     \<and> remove_values example_env [PInt 0] v = Inr v'
     \<and> data (source_model v') = DList [PInt 8]
     \<and> caller_data v' = DSet [PInt 7, PInt 8] \<and> readonly v'"
proof -
  define v where "v =
     \<lparr>readonly = True, model_class = ReadOnlyCollectionsModel,
      source_model =
        \<lparr>remote = False, previous_sort = -1, data = DList [PInt 7, PInt 8],
         showndata = DSet [PInt 7, PInt 8], keys = [PInt 0, PInt 1],
         sizes = [PInt 1, PInt 1], types = [''object'', ''object''],
         total_rows = 2, rows_loaded = 2\<rparr>,
      dictfilter = None, caller_data = DSet [PInt 7, PInt 8], aliased = False\<rparr>"
  define v' where "v' =
     \<lparr>readonly = True, model_class = ReadOnlyCollectionsModel,
      source_model =
        \<lparr>remote = False, previous_sort = -1, data = DList [PInt 8],
         showndata = DList [PInt 8], keys = [PInt 0],
         sizes = [PInt 1], types = [''object''],
         total_rows = 1, rows_loaded = 1\<rparr>,
      dictfilter = None, caller_data = DSet [PInt 7, PInt 8], aliased = False\<rparr>"
  have i: "init_view example_env (DSet [PInt 7, PInt 8]) False = Inr v"
    by (simp add: init_view_def init_model_def set_data_eq apply_filter_def new_model_def
      with_keys_def LARGE_NROWS_def set_size_and_type_def row_value_def list_get_def
      range_keys_def list_index_def example_env_def v_def upt_rec Let_def numeral_2_eq_2)
  have r: "remove_values example_env [PInt 0] v = Inr v'"
    by (simp add: remove_values_def py_sorted_def mutated_def view_set_data_def
      set_data_eq apply_filter_def with_keys_def LARGE_NROWS_def set_size_and_type_def
      row_value_def list_get_def range_keys_def list_index_def example_env_def v_def v'_def
      upt_rec Let_def)
  have s: "is_tuple_set_frozenset (DSet [PInt 7, PInt 8])" by simp
  from tuple_set_frozenset_forced_read_only
    [where d = "DSet [PInt 7, PInt 8]" and env = example_env and ro = False and v = v
      and v' = v' and ks = "[PInt 0]"] s i r
  have "readonly v \<and> model_class v = ReadOnlyCollectionsModel \<and> \<not> condition_remove v
      \<and> read_only_view v' \<and> caller_data v' = caller_data v
      \<and> caller_data v = DSet [PInt 7, PInt 8]"
    by blast
  moreover have "data (source_model v') = DList [PInt 8]" by (simp add: v'_def)
  ultimately show ?thesis using i r by (auto simp: read_only_view_def)
qed

text \<open>
  C5 (the code departs from the claim). A dict with the keys \<open>1\<close> and
  \<open>'a'\<close>: \<open>remove_values\<close> first sorts the keys it is given, the
  comparison of an \<open>int\<close> with a \<open>str\<close> raises \<open>TypeError\<close>, and nothing
  is removed, in whichever order the two keys are given.
\<close>

theorem remove_values_mixed_keys_raises:
  "init_view example_env example_dict False = Inr example_view
   \<and> keys (source_model example_view) = [PInt 1, PStr ''a'']
   \<and> py_sorted Inr py_lt True [PInt 1, PStr ''a''] = Inl (Exn TypeError [])
   \<and> remove_values example_env [PInt 1, PStr ''a''] example_view = Inl (Exn TypeError [])
   \<and> remove_values example_env [PStr ''a'', PInt 1] example_view = Inl (Exn TypeError [])"
  using init_example_view
  by (simp add: remove_values_def py_sorted_def raise_def example_view_def)

lemma str_lt_irrefl [simp]: "\<not> str_lt a a"
  by (induction a) auto

lemma str_lt_total: "a \<noteq> b \<Longrightarrow> str_lt a b \<longleftrightarrow> \<not> str_lt b a"
proof (induction a b rule: str_lt.induct)
  case (4 c s d t)
  show ?case
  proof (cases "c = d")
    case True
    with 4 show ?thesis by simp
  next
    case False
    then have "(of_char c :: nat) < of_char d \<or> (of_char d :: nat) < of_char c"
      by (simp add: neq_iff [symmetric])
    with False show ?thesis by auto
  qed
qed auto

lemma py_lt_irrefl: "py_lt a a \<noteq> Inr True"
  by (cases a) (simp_all add: raise_def)

lemma py_lt_flip:
  assumes "py_lt a b = Inr t" and "a \<noteq> b"
  shows "py_lt b a = Inr (\<not> t)"
proof (cases a)
  case (PInt i)
  with assms show ?thesis by (cases b) (auto simp: raise_def)
next
  case (PStr x)
  with assms obtain y where y: "b = PStr y" "x \<noteq> y" "t = str_lt x y"
    by (cases b) (auto simp: raise_def)
  with PStr str_lt_total [of x y] show ?thesis by simp
next
  case (PBytes x)
  with assms obtain y where y: "b = PBytes y" "x \<noteq> y" "t = str_lt x y"
    by (cases b) (auto simp: raise_def)
  with PBytes str_lt_total [of x y] show ?thesis by simp
qed (use assms in \<open>simp_all add: raise_def\<close>)

lemma py_sorted_pair:
  "py_sorted Inr py_lt True [a, b] =
     bindE (py_lt a b) (\<lambda>t. Inr (if t then [b, a] else [a, b]))"
  by (cases "py_lt a b") (auto simp: py_sorted_def)

lemma py_sorted_pair_sym:
  assumes "py_lt a b = Inr t" and "a \<noteq> b"
  shows "py_sorted Inr py_lt True [a, b] = Inr (if t then [b, a] else [a, b])"
    and "py_sorted Inr py_lt True [b, a] = Inr (if t then [b, a] else [a, b])"
  using assms py_lt_flip [OF assms] by (simp_all add: py_sorted_pair)

lemma filter_neq_absent: "k \<notin> set ks \<Longrightarrow> filter (\<lambda>x. x \<noteq> k) ks = ks"
  by (induction ks) auto

lemma dict_pop_Inr:
  assumes "list_all hashable (map fst kvs)" and "distinct (map fst kvs)"
    and "k \<in> set (map fst kvs)"
  shows "\<exists>kvs'. dict_pop kvs k = Inr kvs' \<and> list_all hashable (map fst kvs')
     \<and> distinct (map fst kvs') \<and> Suc (length kvs') = length kvs
     \<and> set (map fst kvs') = set (map fst kvs) - {k}"
proof -
  let ?f = "filter (\<lambda>kv. fst kv \<noteq> k) kvs"
  have h: "hashable k" using assms(1,3) by (auto simp: list_all_iff)
  have m: "map_of kvs k \<noteq> None" using assms(3) by (simp add: map_of_eq_None_iff)
  have e: "map fst ?f = filter (\<lambda>x. x \<noteq> k) (map fst kvs)"
    by (simp add: filter_map comp_def)
  have l: "Suc (length (filter (\<lambda>x. x \<noteq> k) ks)) = length ks"
    if "distinct ks" "k \<in> set ks" for ks :: "pyval list"
    using that by (induction ks) (auto simp: filter_neq_absent)
  have "Suc (length ?f) = length kvs"
    using l [OF assms(2,3)] by (simp add: e [symmetric])
  moreover have "list_all hashable (map fst ?f)"
    using assms(1) by (auto simp: list_all_iff)
  moreover have "distinct (map fst ?f)" using assms(2) by (simp add: e)
  moreover have "set (map fst ?f) = set (map fst kvs) - {k}" by (auto simp: e)
  ultimately show ?thesis using h m by (simp add: dict_pop_def)
qed

lemma list_pop_Inr:
  assumes "i < length xs"
  shows "\<exists>ys. list_pop xs (PInt (int i)) = Inr ys \<and> Suc (length ys) = length xs"
  using assms by (auto simp: list_index_def Let_def)

lemma range_keys_mem: "k \<in> set (range_keys xs) \<longleftrightarrow> (\<exists>i < length xs. k = PInt (int i))"
  by (auto simp: range_keys_def)

lemma pop_pair:
  assumes "is_list d \<or> is_dict d" and "wf_data d"
    and "case d of DList xs \<Rightarrow> hi \<in> set (range_keys xs) \<and> lo \<in> set (range_keys xs)
           | DDict kvs \<Rightarrow> hi \<in> set (map fst kvs) \<and> lo \<in> set (map fst kvs)
           | _ \<Rightarrow> False"
    and "py_lt lo hi = Inr True"
  shows "\<exists>d'. pop_all d [hi, lo] = Inr d' \<and> is_collection d' \<and> wf_data d'
      \<and> data_len d' + 2 = data_len d"
proof (cases d)
  case (DList xs)
  with assms(3) obtain i j where i: "hi = PInt (int i)" "i < length xs"
    and j: "lo = PInt (int j)" "j < length xs"
    by (auto simp: range_keys_mem)
  from assms(4) i j have ji: "j < i" by simp
  from list_pop_Inr [OF i(2)] obtain ys where
    ys: "list_pop xs (PInt (int i)) = Inr ys" "Suc (length ys) = length xs"
    by blast
  from ji i(2) ys(2) have "j < length ys" by simp
  from list_pop_Inr [OF this] obtain zs where
    zs: "list_pop ys (PInt (int j)) = Inr zs" "Suc (length zs) = length ys"
    by blast
  show ?thesis using DList i j ys zs by simp
next
  case (DDict kvs)
  with assms(2,3) have w: "list_all hashable (map fst kvs)" "distinct (map fst kvs)"
    and hi: "hi \<in> set (map fst kvs)" and lo: "lo \<in> set (map fst kvs)"
    by auto
  from assms(4) have ne: "lo \<noteq> hi"
    using py_lt_irrefl [of lo] by auto
  from dict_pop_Inr [OF w hi] obtain k1 where
    k1: "dict_pop kvs hi = Inr k1" "list_all hashable (map fst k1)" "distinct (map fst k1)"
      "Suc (length k1) = length kvs" "set (map fst k1) = set (map fst kvs) - {hi}"
    by blast
  from k1(5) lo ne have "lo \<in> set (map fst k1)" by simp
  from dict_pop_Inr [OF k1(2,3) this] obtain k2 where
    k2: "dict_pop k1 lo = Inr k2" "list_all hashable (map fst k2)" "distinct (map fst k2)"
      "Suc (length k2) = length k1"
    by blast
  show ?thesis using DDict k1 k2 by simp
qed (use assms(1) in auto)

lemma init_view_Inr:
  assumes "init_view env d ro = Inr v"
  shows "dictfilter v = None"
    and "init_model env False (Some d) = Inr (source_model v)"
  using assms by (auto simp: init_view_def Let_def bindE_eq_Inr)

lemma init_model_mutable:
  assumes "init_model env r (Some d) = Inr m" and "is_list d \<or> is_dict d"
  shows "data m = d" and "remote m = r" and "total_rows m = data_len d"
    and "keys m = (case d of DList xs \<Rightarrow> range_keys xs | DDict kvs \<Rightarrow> map fst kvs | _ \<Rightarrow> [])"
proof -
  from assms(1) have l: "load_keys env d ((new_model r)\<lparr>data := d, showndata := d\<rparr>) = Inr m"
    by (simp add: init_model_def set_data_eq apply_filter_def)
  from assms(2) have c: "is_collection d" "\<not> is_set_frozenset d" by (cases d; simp)+
  from load_keys_data [OF l c(1)] c(2) show "data m = d" by simp
  from assms(1) show "remote m = r"
    by (auto simp: init_model_def dest: set_data_Inr(5))
  from l assms(2) show "total_rows m = data_len d"
    by (cases d) (auto dest!: with_keys_Inr(2) simp: range_keys_def)
  from l assms(2)
  show "keys m = (case d of DList xs \<Rightarrow> range_keys xs | DDict kvs \<Rightarrow> map fst kvs | _ \<Rightarrow> [])"
    by (cases d) (auto dest!: with_keys_Inr(1))
qed

text \<open>
  Where the two keys can be ordered, \<open>remove_values\<close> does what C5 says:
  on a fresh view over a list or a dict, the two orders of the keys give the
  same view, with two rows less.
\<close>

lemma remove_values_order_independent:
  assumes "init_view env d ro = Inr v" and "is_list d \<or> is_dict d" and "wf_data d"
    and "k1 \<in> set (keys (source_model v))" and "k2 \<in> set (keys (source_model v))"
    and "k1 \<noteq> k2" and "py_lt k1 k2 = Inr t"
  shows "\<exists>v'. remove_values env [k1, k2] v = Inr v' \<and> remove_values env [k2, k1] v = Inr v'
     \<and> total_rows (source_model v') + 2 = total_rows (source_model v)
     \<and> data_len (data (source_model v')) + 2 = data_len d"
proof -
  note iv = init_view_Inr [OF assms(1)]
  note im = init_model_mutable [OF iv(2) assms(2)]
  define hi where "hi = (if t then k2 else k1)"
  define lo where "lo = (if t then k1 else k2)"
  have s: "py_sorted Inr py_lt True [k1, k2] = Inr [hi, lo]"
    "py_sorted Inr py_lt True [k2, k1] = Inr [hi, lo]"
    using py_sorted_pair_sym [OF assms(7,6)] by (simp_all add: hi_def lo_def)
  have lt: "py_lt lo hi = Inr True"
    using assms(7) py_lt_flip [OF assms(7,6)] by (simp add: hi_def lo_def)
  have mem: "case d of DList xs \<Rightarrow> hi \<in> set (range_keys xs) \<and> lo \<in> set (range_keys xs)
           | DDict kvs \<Rightarrow> hi \<in> set (map fst kvs) \<and> lo \<in> set (map fst kvs)
           | _ \<Rightarrow> False"
    using assms(2,4,5) im(4) by (cases d) (auto simp: hi_def lo_def)
  from pop_pair [OF assms(2,3) mem lt] obtain d' where
    d': "pop_all d [hi, lo] = Inr d'" "is_collection d'" "wf_data d'"
      "data_len d' + 2 = data_len d"
    by blast
  from set_data_local_total [of "source_model v" d' env] im(2) d'(2,3)
  obtain m' where m': "set_data env d' None (source_model v) = Inr m'"
    "total_rows m' = data_len d'"
    by auto
  have dm: "data_len (data m') = data_len d'"
    using m'(1) d'(2) load_keys_data [of env d'
        "(source_model v)\<lparr>data := d', showndata := d'\<rparr>" m']
    by (cases d') (auto simp: set_data_eq apply_filter_def)
  define v' where "v' = v\<lparr>caller_data := (if aliased v then unwrap d' else caller_data v),
          aliased := (aliased v \<and> is_collection d'), source_model := m'\<rparr>"
  have mu: "mutated env d' v = Inr v'"
    using m'(1) iv(1) by (simp add: mutated_def view_set_data_def v'_def)
  have "remove_values env [k1, k2] v = Inr v'" "remove_values env [k2, k1] v = Inr v'"
    using s d'(1) mu im(1) by (simp_all add: remove_values_def)
  moreover have "total_rows (source_model v') + 2 = total_rows (source_model v)"
    using m'(2) d'(4) im(3) by (simp add: v'_def)
  moreover have "data_len (data (source_model v')) + 2 = data_len d"
    using dm d'(4) by (simp add: v'_def)
  ultimately show ?thesis by blast
qed


end
